theory Spec2Isabelle
  imports Main
begin

section \<open>Python values\<close>

text \<open>
  A Python \<open>str\<close> is a sequence of Unicode code points and \<open>len\<close> counts them; it is
  modelled as a list of code point numbers. The literals of \<open>app.py\<close> are ASCII and are
  written through \<open>ascii\<close>.
\<close>

type_synonym codepoint = nat
type_synonym pystr = "codepoint list"

definition ascii :: "string \<Rightarrow> pystr" where
  "ascii cs = map of_char cs"

text \<open>A float is only ever carried around by the handler, never inspected.\<close>

datatype pyfloat = Finite int int | NaN | PosInf | NegInf

text \<open>
  The values \<open>json.loads\<close> produces: \<open>None\<close>, \<open>bool\<close>, \<open>int\<close>, \<open>float\<close>, \<open>str\<close>,
  \<open>list\<close> and \<open>dict\<close> (keys are always \<open>str\<close>). A dict is an association list read with
  \<open>map_of\<close>. The same type carries the dicts handed to \<open>jsonify\<close>.
\<close>

datatype pyval =
    PNone
  | PBool bool
  | PInt int
  | PFloat pyfloat
  | PStr pystr
  | PList "pyval list"
  | PDict "(pystr \<times> pyval) list"

text \<open>The exceptions that can be raised while a request is served.\<close>

datatype exn = TypeError | KeyError | BadRequest | UnsupportedMediaType | NotFound | MethodNotAllowed

subsection \<open>\<open>str\<close> methods\<close>

text \<open>
  \<open>str.isspace\<close> for one code point: the table of CPython's \<open>_PyUnicode_IsWhitespace\<close>.
\<close>

definition py_isspace :: "codepoint \<Rightarrow> bool" where
  "py_isspace c \<longleftrightarrow>
     (0x09 \<le> c \<and> c \<le> 0x0D) \<or> (0x1C \<le> c \<and> c \<le> 0x20) \<or> c = 0x85 \<or> c = 0xA0 \<or>
     c = 0x1680 \<or> (0x2000 \<le> c \<and> c \<le> 0x200A) \<or> c = 0x2028 \<or> c = 0x2029 \<or>
     c = 0x202F \<or> c = 0x205F \<or> c = 0x3000"

abbreviation nonspace :: "codepoint \<Rightarrow> bool" where
  "nonspace c \<equiv> \<not> py_isspace c"

text \<open>\<open>s.strip()\<close>: leading and trailing whitespace removed.\<close>

definition strip :: "pystr \<Rightarrow> pystr" where
  "strip s = rev (dropWhile py_isspace (rev (dropWhile py_isspace s)))"

text \<open>
  \<open>s.split()\<close> with no separator: skip a run of whitespace, stop at the end of the string,
  otherwise take the run of non-whitespace that follows as the next item, and go on behind it.
\<close>

function split :: "pystr \<Rightarrow> pystr list" where
  "split s =
     (case dropWhile py_isspace s of
        [] \<Rightarrow> []
      | c # cs \<Rightarrow> (c # takeWhile nonspace cs) # split (dropWhile nonspace cs))"
  by pat_completeness auto
termination
proof (relation "measure length")
  show "wf (measure length)" by simp
next
  fix s :: pystr and c cs
  assume d: "dropWhile py_isspace s = c # cs"
  have "length (dropWhile nonspace cs) \<le> length cs"
    by (rule length_dropWhile_le)
  also have "length cs < length (dropWhile py_isspace s)"
    by (simp add: d)
  also have "\<dots> \<le> length s"
    by (rule length_dropWhile_le)
  finally show "(dropWhile nonspace cs, s) \<in> measure length"
    by simp
qed

declare split.simps [simp del]

text \<open>Truth value of a \<open>str\<close>: non-empty.\<close>

definition truthy :: "pystr \<Rightarrow> bool" where
  "truthy s \<longleftrightarrow> s \<noteq> []"

subsection \<open>Operators on parsed JSON\<close>

text \<open>
  \<open>s.startswith(p)\<close> and \<open>s.endswith(p)\<close>; \<open>sub in s\<close> on two strings holds when
  \<open>sub\<close> occurs in \<open>s\<close> as a contiguous run.
\<close>

fun startswith :: "'a list \<Rightarrow> 'a list \<Rightarrow> bool" where
  "startswith s [] = True"
| "startswith [] (p # ps) = False"
| "startswith (c # cs) (p # ps) = (c = p \<and> startswith cs ps)"

definition endswith :: "'a list \<Rightarrow> 'a list \<Rightarrow> bool" where
  "endswith s p = startswith (rev s) (rev p)"

fun str_contains :: "pystr \<Rightarrow> pystr \<Rightarrow> bool" where
  "str_contains [] sub = startswith [] sub"
| "str_contains (c # cs) sub = (startswith (c # cs) sub \<or> str_contains cs sub)"

text \<open>
  \<open>key in data\<close> for a \<open>str\<close> key: key membership on a dict, element membership on a list,
  substring test on a str; the other JSON values are not iterable and raise \<open>TypeError\<close>.
\<close>

fun contains :: "pyval \<Rightarrow> pystr \<Rightarrow> exn + bool" where
  "contains (PDict kvs) key = Inr (key \<in> set (map fst kvs))"
| "contains (PList vs) key = Inr (PStr key \<in> set vs)"
| "contains (PStr s) key = Inr (str_contains s key)"
| "contains _ key = Inl TypeError"

text \<open>
  \<open>data[key]\<close> for a \<open>str\<close> key: lookup on a dict (\<open>KeyError\<close> when absent); a list and a
  str take integer indices only and the other values are not subscriptable.
\<close>

fun getitem :: "pyval \<Rightarrow> pystr \<Rightarrow> exn + pyval" where
  "getitem (PDict kvs) key = (case map_of kvs key of None \<Rightarrow> Inl KeyError | Some v \<Rightarrow> Inr v)"
| "getitem _ key = Inl TypeError"

section \<open>Requests, responses and the log\<close>

text \<open>
  What the handlers read of Flask's \<open>request\<close>: the method (upper case), the path
  (\<open>PATH_INFO\<close>), the
  mimetype (the Content-Type header in lower case, without its parameters; empty when the
  header is absent), the other headers, and the body as \<open>json.loads\<close> sees it:
  \<open>None\<close> when \<open>json.loads\<close> raises \<open>ValueError\<close> on it, the parsed value otherwise.
\<close>

record request =
  "method" :: string
  path :: string
  mimetype :: string
  headers :: "(string \<times> string) list"
  parsed_body :: "pyval option"

text \<open>
  \<open>request.is_json\<close>: the mimetype is \<open>application/json\<close> or \<open>application/*+json\<close>.
\<close>

definition is_json :: "request \<Rightarrow> bool" where
  "is_json req =
     (let mt = mimetype req
      in mt = ''application/json'' \<or>
         (startswith mt ''application/'' \<and> endswith mt ''+json''))"

text \<open>
  \<open>request.get_json()\<close> with its default arguments: a mimetype that is not JSON is refused,
  a body that does not parse raises \<open>BadRequest\<close>, and the parsed value is returned otherwise.
\<close>

definition get_json :: "request \<Rightarrow> exn + pyval" where
  "get_json req =
     (if \<not> is_json req then Inl UnsupportedMediaType
      else case parsed_body req of None \<Rightarrow> Inl BadRequest | Some v \<Rightarrow> Inr v)"

text \<open>
  A view returns \<open>jsonify(d), code\<close>; the response object made from it carries the JSON
  document and the status. The automatic reply to OPTIONS has no body. \<open>Redirect q\<close>
  is the router's own reply to a path it wants requested as \<open>q\<close>: status 308 with the
  \<open>Location\<close> header for \<open>q\<close>.
\<close>

type_synonym view_result = "pyval \<times> nat"

datatype response = Response (body: "pyval option") (status: nat) | Redirect (location: string)

definition make_response :: "view_result \<Rightarrow> response" where
  "make_response rv = Response (Some (fst rv)) (snd rv)"

text \<open>
  The process-wide \<open>logger\<close> is the only state outside a request. Its records are
  \<open>logger.info(f"Analyzed text with {word_count} words and {character_count} characters")\<close>
  and \<open>logger.error(f"Error processing request: {str(e)}")\<close>.
\<close>

datatype log_record = Info_analyzed int int | Error_processing exn

type_synonym log = "log_record list"

section \<open>The views of \<open>app.py\<close>\<close>

definition error_body :: "string \<Rightarrow> pyval" where
  "error_body msg = PDict [(ascii ''error'', PStr (ascii msg))]"

definition health_check :: view_result where
  "health_check = (PDict [(ascii ''status'', PStr (ascii ''healthy''))], 200)"

text \<open>\<open>len(text.split()) if text.strip() else 0\<close> and \<open>len(text)\<close>.\<close>

definition word_count :: "pystr \<Rightarrow> int" where
  "word_count text = (if truthy (strip text) then int (length (split text)) else 0)"

definition character_count :: "pystr \<Rightarrow> int" where
  "character_count text = int (length text)"

text \<open>
  The \<open>try\<close> block of \<open>analyze_text\<close>: \<open>Inl\<close> is an exception leaving the block, \<open>Inr\<close> a
  \<open>return\<close> together with the records logged on the way. \<open>isinstance(text, str)\<close> is
  the case distinction on the value.
\<close>

definition analyze_text_try :: "request \<Rightarrow> exn + view_result \<times> log" where
  "analyze_text_try req =
     (if \<not> is_json req then
        Inr ((error_body ''Content-Type must be application/json'', 400), [])
      else
        case get_json req of
          Inl e \<Rightarrow> Inl e
        | Inr data \<Rightarrow>
            (case contains data (ascii ''text'') of
               Inl e \<Rightarrow> Inl e
             | Inr present \<Rightarrow>
                 if \<not> present then
                   Inr ((error_body ''Missing required field: text'', 400), [])
                 else
                   (case getitem data (ascii ''text'') of
                      Inl e \<Rightarrow> Inl e
                    | Inr text \<Rightarrow>
                        (case text of
                           PStr s \<Rightarrow>
                             Inr ((PDict [(ascii ''original_text'', PStr s),
                                          (ascii ''word_count'', PInt (word_count s)),
                                          (ascii ''character_count'', PInt (character_count s))],
                                   200),
                                  [Info_analyzed (word_count s) (character_count s)])
                         | _ \<Rightarrow>
                             Inr ((error_body ''Field 'text' must be a string'', 400), [])))))"

text \<open>
  \<open>analyze_text\<close> itself: \<open>except Exception\<close> catches whatever leaves the block, logs it
  and answers 500. The log is passed in and returned extended.
\<close>

definition analyze_text :: "request \<Rightarrow> log \<Rightarrow> view_result \<times> log" where
  "analyze_text req lg =
     (case analyze_text_try req of
        Inr (rv, recs) \<Rightarrow> (rv, lg @ recs)
      | Inl e \<Rightarrow> ((error_body ''Internal server error'', 500), lg @ [Error_processing e]))"

definition not_found :: "exn \<Rightarrow> view_result" where
  "not_found error = (error_body ''Endpoint not found'', 404)"

definition method_not_allowed :: "exn \<Rightarrow> view_result" where
  "method_not_allowed error = (error_body ''Method not allowed'', 405)"

section \<open>Routing\<close>

text \<open>
  The URL map that \<open>app.py\<close> builds. \<open>Flask(__name__)\<close> registers the rule
  \<open>/static/<path:filename>\<close> for GET, and the two \<open>@app.route\<close> decorators add
  \<open>/health\<close> for GET and \<open>/analyze\<close> for POST. Flask adds HEAD to every rule that
  has GET, and OPTIONS to every rule.
\<close>

datatype endpoint = Static | Health_check | Analyze_text

datatype rule_path = Fixed string | Under string

datatype rule = Rule (rule_path: rule_path) (methods: "string list") (endpoint: endpoint)

definition route :: "rule_path \<Rightarrow> string list \<Rightarrow> endpoint \<Rightarrow> rule" where
  "route p ms ep =
     Rule p (ms @ (if ''GET'' \<in> set ms then [''HEAD''] else []) @ [''OPTIONS'']) ep"

definition url_map :: "rule list" where
  "url_map =
     [route (Under ''/static/'') [''GET''] Static,
      route (Fixed ''/health'') [''GET''] Health_check,
      route (Fixed ''/analyze'') [''POST''] Analyze_text]"

text \<open>
  A fixed rule matches its own path only (the rules are strict about a trailing slash);
  the \<open>path\<close> converter of the static rule matches a non-empty rest that does not begin
  with a slash.
\<close>

fun matches :: "rule_path \<Rightarrow> string \<Rightarrow> bool" where
  "matches (Fixed p) q = (q = p)"
| "matches (Under p) q =
     (startswith q p \<and>
      (case drop (length p) q of [] \<Rightarrow> False | c # cs \<Rightarrow> c \<noteq> CHR ''/''))"

text \<open>
  The router (werkzeug 2.2 and later) works on the request's \<open>PATH_INFO\<close>. It first
  replaces the leading slashes by a single one: \<open>f"/{path_info.lstrip('/')}"\<close>, and the
  empty string stays empty.
\<close>

definition path_part :: "string \<Rightarrow> string" where
  "path_part p =
     (case dropWhile (\<lambda>c. c = CHR ''/'') p of [] \<Rightarrow> [] | c # cs \<Rightarrow> CHR ''/'' # c # cs)"

text \<open>
  \<open>re.sub("/{2,}?", "/", path)\<close>: from left to right, every pair of adjacent slashes
  becomes one slash (the quantifier is lazy, so a match is exactly two slashes long).
\<close>

fun merge_slashes :: "string \<Rightarrow> string" where
  "merge_slashes (a # b # cs) =
     (if a = CHR ''/'' \<and> b = CHR ''/'' then CHR ''/'' # merge_slashes cs
      else a # merge_slashes (b # cs))"
| "merge_slashes cs = cs"

text \<open>
  One pass over the rules for a path and a method: the rule found, if one matches the path
  and allows the method, and the methods of the rules that match the path but not the
  method (\<open>have_match_for\<close>).
\<close>

definition match_rules :: "string \<Rightarrow> string \<Rightarrow> rule option \<times> string list" where
  "match_rules q m =
     (let rs = filter (\<lambda>r. matches (rule_path r) q) url_map
      in (find (\<lambda>r. m \<in> set (methods r)) rs,
          concat (map methods (filter (\<lambda>r. m \<notin> set (methods r)) rs))))"

text \<open>
  Matching a request. When the first pass finds no rule, the router tries again with the
  slashes merged; a rule found then makes it raise \<open>RequestRedirect\<close> to the merged path.
  Otherwise it raises \<open>MethodNotAllowed\<close> when some rule matched the path in either pass,
  and \<open>NotFound\<close> when none did.
\<close>

datatype routing =
    Matched rule
  | RequestRedirect string
  | Raise_MethodNotAllowed
  | Raise_NotFound

definition url_match :: "string \<Rightarrow> string \<Rightarrow> routing" where
  "url_match p m =
     (let q = path_part p in
      case match_rules q m of
        (Some r, have_match_for) \<Rightarrow> Matched r
      | (None, have_match_for) \<Rightarrow>
          (let q' = merge_slashes q in
           case match_rules q' m of
             (Some r, have_match_for') \<Rightarrow> RequestRedirect q'
           | (None, have_match_for') \<Rightarrow>
               if have_match_for @ have_match_for' \<noteq> [] then Raise_MethodNotAllowed
               else Raise_NotFound))"

text \<open>
  Serving one request, up to the response object. \<open>NotFound\<close> and \<open>MethodNotAllowed\<close> go
  to the error handlers that \<open>app.py\<close> registers; a redirect is answered by werkzeug
  itself with 308 and the new location. OPTIONS on a matched rule is answered by Flask
  itself. The repository ships no static folder, so the static view raises \<open>NotFound\<close>
  for every file name.
\<close>

definition full_dispatch_request :: "request \<Rightarrow> log \<Rightarrow> response \<times> log" where
  "full_dispatch_request req lg =
     (case url_match (path req) (method req) of
        Raise_NotFound \<Rightarrow> (make_response (not_found NotFound), lg)
      | Raise_MethodNotAllowed \<Rightarrow> (make_response (method_not_allowed MethodNotAllowed), lg)
      | RequestRedirect q \<Rightarrow> (Redirect q, lg)
      | Matched r \<Rightarrow>
          if method req = ''OPTIONS'' then (Response None 200, lg)
          else
            (case endpoint r of
               Static \<Rightarrow> (make_response (not_found NotFound), lg)
             | Health_check \<Rightarrow> (make_response health_check, lg)
             | Analyze_text \<Rightarrow>
                 (case analyze_text req lg of (rv, lg') \<Rightarrow> (make_response rv, lg'))))"



text \<open>The process serving a sequence of requests, one after the other, on one log.\<close>

fun serve :: "request list \<Rightarrow> log \<Rightarrow> response list \<times> log" where
  "serve [] lg = ([], lg)"
| "serve (req # reqs) lg =
     (case full_dispatch_request req lg of
        (resp, lg') \<Rightarrow> (case serve reqs lg' of (resps, lg'') \<Rightarrow> (resp # resps, lg'')))"

section \<open>The word count as the specification words it\<close>

text \<open>
  The specification counts the whitespace-delimited non-empty tokens: the text is cut at
  every whitespace character, which leaves empty pieces between adjacent separators and at
  the ends, and the empty pieces are discarded.
\<close>

fun pieces :: "pystr \<Rightarrow> pystr list" where
  "pieces [] = [[]]"
| "pieces (c # cs) =
     (if py_isspace c then [] # pieces cs
      else case pieces cs of [] \<Rightarrow> [[c]] | p # ps \<Rightarrow> (c # p) # ps)"

definition tokens :: "pystr \<Rightarrow> pystr list" where
  "tokens s = filter (\<lambda>p. p \<noteq> []) (pieces s)"

section \<open>Reading requests and responses\<close>

text \<open>
  A request as a client sends it: method, path, mimetype and body, with no further headers.
  \<open>returned rv key\<close> reads one member of the JSON object a view returned.
\<close>

definition client_request :: "string \<Rightarrow> string \<Rightarrow> string \<Rightarrow> pyval option \<Rightarrow> request" where
  "client_request m p mt b =
     \<lparr>method = m, path = p, mimetype = mt, headers = [], parsed_body = b\<rparr>"

definition returned :: "view_result \<Rightarrow> string \<Rightarrow> pyval option" where
  "returned rv key = (case fst rv of PDict kvs \<Rightarrow> map_of kvs (ascii key) | _ \<Rightarrow> None)"

text \<open>The input named in the docstring of \<open>analyze_text\<close>.\<close>

definition docstring_text :: pystr where
  "docstring_text = ascii ''I love cloud engineering!''"

definition docstring_input :: pyval where
  "docstring_input = PDict [(ascii ''text'', PStr docstring_text)]"


section \<open>Properties of the \<open>str\<close> methods\<close>

lemma ascii_eq_iff [simp]: "ascii a = ascii b \<longleftrightarrow> a = b"
  by (simp add: ascii_def inj_map_eq_map [OF inj_of_char])

lemma split_when_Nil: "dropWhile py_isspace s = [] \<Longrightarrow> split s = []"
  by (subst split.simps) (simp only: list.case)

lemma split_when_Cons:
  "dropWhile py_isspace s = c # cs \<Longrightarrow>
   split s = (c # takeWhile nonspace cs) # split (dropWhile nonspace cs)"
  by (subst split.simps) (simp only: list.case)

lemma split_Nil: "split [] = []"
  by (rule split_when_Nil) simp

lemma split_space: "py_isspace c \<Longrightarrow> split (c # cs) = split cs"
  by (simp add: split.simps [of "c # cs"] split.simps [of cs])

lemma split_word:
  "\<not> py_isspace c \<Longrightarrow> split (c # cs) = (c # takeWhile nonspace cs) # split (dropWhile nonspace cs)"
  by (rule split_when_Cons) simp

lemma all_dropWhile: "(\<forall>x \<in> set (dropWhile P s). P x) \<longleftrightarrow> (\<forall>x \<in> set s. P x)"
  by (induction s) auto

lemma pieces_run:
  "pieces s =
     takeWhile nonspace s # (case dropWhile nonspace s of [] \<Rightarrow> [] | d # r \<Rightarrow> pieces r)"
  by (induction s) simp_all

lemma tokens_Nil: "tokens [] = []"
  by (simp add: tokens_def)

lemma tokens_space: "py_isspace c \<Longrightarrow> tokens (c # cs) = tokens cs"
  by (simp add: tokens_def)

lemma tokens_dropWhile: "tokens (dropWhile py_isspace s) = tokens s"
  by (induction s) (simp_all add: tokens_space)

lemma tokens_word:
  assumes "\<not> py_isspace c"
  shows "tokens (c # cs) = (c # takeWhile nonspace cs) # tokens (dropWhile nonspace cs)"
proof (cases "dropWhile nonspace cs")
  case Nil
  have p: "pieces cs = [takeWhile nonspace cs]"
    by (subst pieces_run) (simp only: Nil list.case)
  show ?thesis
    unfolding Nil tokens_Nil using assms by (simp add: tokens_def p)
next
  case (Cons d r)
  have d: "py_isspace d"
    using hd_dropWhile [of "\<lambda>c. \<not> py_isspace c" cs] Cons by simp
  have p: "pieces cs = takeWhile nonspace cs # pieces r"
    by (subst pieces_run) (simp only: Cons list.case)
  show ?thesis
    unfolding Cons using assms d by (simp add: tokens_def p)
qed

lemma split_eq_tokens: "split s = tokens s"
proof (induction s rule: split.induct)
  case (1 s)
  show ?case
  proof (cases "dropWhile py_isspace s")
    case Nil
    have "tokens s = tokens (dropWhile py_isspace s)"
      by (simp only: tokens_dropWhile)
    also have "\<dots> = []"
      by (simp only: Nil tokens_Nil)
    finally show ?thesis
      by (simp only: split_when_Nil [OF Nil])
  next
    case (Cons c cs)
    have c: "\<not> py_isspace c"
      using hd_dropWhile [of py_isspace s] Cons by simp
    have "split s = (c # takeWhile nonspace cs) # split (dropWhile nonspace cs)"
      by (rule split_when_Cons [OF Cons])
    also have "\<dots> = (c # takeWhile nonspace cs) # tokens (dropWhile nonspace cs)"
      by (simp only: "1.IH" [OF Cons])
    also have "\<dots> = tokens (c # cs)"
      by (simp only: tokens_word [OF c])
    also have "\<dots> = tokens (dropWhile py_isspace s)"
      by (simp only: Cons)
    also have "\<dots> = tokens s"
      by (rule tokens_dropWhile)
    finally show ?thesis .
  qed
qed

lemma length_split_le: "length (split s) \<le> length s"
proof (induction s rule: split.induct)
  case (1 s)
  show ?case
  proof (cases "dropWhile py_isspace s")
    case Nil
    show ?thesis by (simp only: split_when_Nil [OF Nil] list.size le0)
  next
    case (Cons c cs)
    have "length (split s) = Suc (length (split (dropWhile nonspace cs)))"
      by (simp add: split_when_Cons [OF Cons])
    also have "\<dots> \<le> Suc (length (dropWhile nonspace cs))"
      using "1.IH" [OF Cons] by simp
    also have "\<dots> \<le> Suc (length cs)"
      by (simp add: length_dropWhile_le)
    also have "\<dots> = length (dropWhile py_isspace s)"
      by (simp add: Cons)
    also have "\<dots> \<le> length s"
      by (rule length_dropWhile_le)
    finally show ?thesis .
  qed
qed

lemma strip_empty_iff: "strip s = [] \<longleftrightarrow> (\<forall>c \<in> set s. py_isspace c)"
  by (simp add: strip_def all_dropWhile)

lemma split_all_space: "\<forall>c \<in> set s. py_isspace c \<Longrightarrow> split s = []"
  by (rule split_when_Nil) simp

lemma word_count_eq_split: "word_count s = int (length (split s))"
  by (simp add: word_count_def truthy_def strip_empty_iff split_all_space)

lemma word_count_all_space: "\<forall>c \<in> set s. py_isspace c \<Longrightarrow> word_count s = 0"
  by (simp add: word_count_def truthy_def strip_empty_iff)

section \<open>Properties of the views and the router\<close>



lemma match_rules_health:
  "match_rules ''/health'' m =
     (if m \<in> {''GET'', ''HEAD'', ''OPTIONS''}
      then (Some (Rule (Fixed ''/health'') [''GET'', ''HEAD'', ''OPTIONS''] Health_check), [])
      else (None, [''GET'', ''HEAD'', ''OPTIONS'']))"
  by (simp add: match_rules_def url_map_def route_def)

lemma match_rules_analyze:
  "match_rules ''/analyze'' m =
     (if m \<in> {''POST'', ''OPTIONS''}
      then (Some (Rule (Fixed ''/analyze'') [''POST'', ''OPTIONS''] Analyze_text), [])
      else (None, [''POST'', ''OPTIONS'']))"
  by (simp add: match_rules_def url_map_def route_def)


lemma url_match_health:
  "url_match ''/health'' m =
     (if m \<in> {''GET'', ''HEAD'', ''OPTIONS''}
      then Matched (Rule (Fixed ''/health'') [''GET'', ''HEAD'', ''OPTIONS''] Health_check)
      else Raise_MethodNotAllowed)"
  by (simp add: url_match_def path_part_def match_rules_health)

lemma url_match_analyze:
  "url_match ''/analyze'' m =
     (if m \<in> {''POST'', ''OPTIONS''}
      then Matched (Rule (Fixed ''/analyze'') [''POST'', ''OPTIONS''] Analyze_text)
      else Raise_MethodNotAllowed)"
  by (simp add: url_match_def path_part_def match_rules_analyze)












lemma analyze_text_accepted:
  assumes "is_json req" and "parsed_body req = Some (PDict kvs)"
    and "map_of kvs (ascii ''text'') = Some (PStr s)"
  shows "analyze_text req lg =
     ((PDict [(ascii ''original_text'', PStr s),
              (ascii ''word_count'', PInt (word_count s)),
              (ascii ''character_count'', PInt (character_count s))], 200),
      lg @ [Info_analyzed (word_count s) (character_count s)])"
proof -
  have "ascii ''text'' \<in> fst ` set kvs"
    using assms(3) by (metis map_of_eq_None_iff option.distinct(1))
  then show ?thesis
    using assms by (simp add: analyze_text_def analyze_text_try_def get_json_def)
qed

lemma analyze_text_not_json:
  "\<not> is_json req \<Longrightarrow>
   analyze_text req lg = ((error_body ''Content-Type must be application/json'', 400), lg)"
  by (simp add: analyze_text_def analyze_text_try_def)

lemma analyze_text_missing:
  assumes "is_json req" and "parsed_body req = Some (PDict kvs)"
    and "ascii ''text'' \<notin> fst ` set kvs"
  shows "analyze_text req lg = ((error_body ''Missing required field: text'', 400), lg)"
  using assms by (simp add: analyze_text_def analyze_text_try_def get_json_def)

lemma analyze_text_not_str:
  assumes "is_json req" and "parsed_body req = Some (PDict kvs)"
    and "map_of kvs (ascii ''text'') = Some v" and "\<forall>s. v \<noteq> PStr s"
  shows "analyze_text req lg = ((error_body ''Field 'text' must be a string'', 400), lg)"
proof -
  have "ascii ''text'' \<in> fst ` set kvs"
    using assms(3) by (metis map_of_eq_None_iff option.distinct(1))
  then show ?thesis
    using assms by (cases v) (simp_all add: analyze_text_def analyze_text_try_def get_json_def)
qed


lemma dispatch_analyze:
  assumes "method req = ''POST''" and "path req = ''/analyze''"
  shows "full_dispatch_request req lg =
     (make_response (fst (analyze_text req lg)), snd (analyze_text req lg))"
  using assms by (simp add: full_dispatch_request_def url_match_analyze split: prod.split)

lemma is_json_application_json: "mimetype req = ''application/json'' \<Longrightarrow> is_json req"
  by (simp add: is_json_def)

lemma client_request_simps [simp]:
  "method (client_request m p mt b) = m" "path (client_request m p mt b) = p"
  "mimetype (client_request m p mt b) = mt" "headers (client_request m p mt b) = []"
  "parsed_body (client_request m p mt b) = b"
  by (simp_all add: client_request_def)

lemma word_count_docstring: "word_count docstring_text = 4"
  by (simp add: docstring_text_def word_count_eq_split ascii_def py_isspace_def
      split_Nil split_space split_word)

lemma character_count_docstring: "character_count docstring_text = 25"
  by (simp add: docstring_text_def character_count_def ascii_def)

lemma analyze_text_docstring:
  assumes "is_json req" and "parsed_body req = Some docstring_input"
  shows "analyze_text req lg =
     ((PDict [(ascii ''original_text'', PStr docstring_text),
              (ascii ''word_count'', PInt 4),
              (ascii ''character_count'', PInt 25)], 200),
      lg @ [Info_analyzed 4 25])"
proof -
  have "map_of [(ascii ''text'', PStr docstring_text)] (ascii ''text'') = Some (PStr docstring_text)"
    by simp
  from analyze_text_accepted [OF assms(1) assms(2) [unfolded docstring_input_def] this]
  show ?thesis
    by (simp add: word_count_docstring character_count_docstring)
qed

lemma returned_accepted:
  assumes "is_json req" and "parsed_body req = Some (PDict kvs)"
    and "map_of kvs (ascii ''text'') = Some (PStr s)"
  shows "snd (fst (analyze_text req lg)) = 200"
    and "returned (fst (analyze_text req lg)) ''original_text'' = Some (PStr s)"
    and "returned (fst (analyze_text req lg)) ''word_count'' = Some (PInt (word_count s))"
    and "returned (fst (analyze_text req lg)) ''character_count'' = Some (PInt (character_count s))"
  by (simp_all add: analyze_text_accepted [OF assms] returned_def)

lemma is_json_client [simp]:
  "is_json (client_request m p ''application/json'' b)"
  by (simp add: is_json_def)


lemma analyze_text_response_log_independent:
  "fst (analyze_text req lg) = fst (analyze_text req lg')"
  by (simp add: analyze_text_def split: sum.split prod.split)

lemma dispatch_response_log_independent:
  "fst (full_dispatch_request req lg) = fst (full_dispatch_request req lg')"
  using analyze_text_response_log_independent [of req lg lg']
  by (simp add: full_dispatch_request_def case_prod_beta
      split: routing.split endpoint.split)

lemma dispatch_health:
  assumes "method req = ''GET''" and "path req = ''/health''"
  shows "full_dispatch_request req lg = (make_response health_check, lg)"
  using assms by (simp add: full_dispatch_request_def url_match_health)

section \<open>The claims\<close>

text \<open>
  C1, as the code has it: a POST to \<open>/analyze\<close> with JSON content type and the body
  \<open>{"text": "I love cloud engineering!"}\<close> is answered with status 200 and the object
  \<open>{"original_text": "I love cloud engineering!", "word_count": 4, "character_count": 25}\<close>.
  The text has 25 characters, so the count returned is 25.
\<close>

theorem C1_docstring_input_response:
  assumes "method req = ''POST''" and "path req = ''/analyze''"
    and "mimetype req = ''application/json''" and "parsed_body req = Some docstring_input"
  shows "fst (full_dispatch_request req lg) =
     Response (Some (PDict [(ascii ''original_text'', PStr (ascii ''I love cloud engineering!'')),
                            (ascii ''word_count'', PInt 4),
                            (ascii ''character_count'', PInt 25)])) 200"
  using analyze_text_docstring [OF is_json_application_json [OF assms(3)] assms(4), of lg]
  by (simp add: dispatch_analyze [OF assms(1) assms(2)] make_response_def docstring_text_def)

theorem C1_docstring_input_response_witness:
  "fst (full_dispatch_request
          (client_request ''POST'' ''/analyze'' ''application/json'' (Some docstring_input)) []) =
     Response (Some (PDict [(ascii ''original_text'', PStr (ascii ''I love cloud engineering!'')),
                            (ascii ''word_count'', PInt 4),
                            (ascii ''character_count'', PInt 25)])) 200"
  by (rule C1_docstring_input_response) simp_all

text \<open>
  C1 as the specification states it, with \<open>"character_count": 26\<close>, does not hold for
  this request.
\<close>

theorem C1_character_count_26_counterexample:
  "fst (full_dispatch_request
          (client_request ''POST'' ''/analyze'' ''application/json'' (Some docstring_input)) []) \<noteq>
     Response (Some (PDict [(ascii ''original_text'', PStr (ascii ''I love cloud engineering!'')),
                            (ascii ''word_count'', PInt 4),
                            (ascii ''character_count'', PInt 26)])) 200"
proof -
  let ?req = "client_request ''POST'' ''/analyze'' ''application/json'' (Some docstring_input)"
  have "is_json ?req"
    by (simp add: is_json_def)
  then have "analyze_text ?req [] =
     ((PDict [(ascii ''original_text'', PStr docstring_text),
              (ascii ''word_count'', PInt 4),
              (ascii ''character_count'', PInt 25)], 200), [Info_analyzed 4 25])"
    using analyze_text_docstring [of ?req "[]"] by simp
  then show ?thesis
    by (simp add: dispatch_analyze make_response_def)
qed

text \<open>
  C2: for every string \<open>s\<close> that the analyze operation accepts (JSON content type, an object
  whose member \<open>text\<close> is the string \<open>s\<close>), the answer is 200 and its \<open>word_count\<close> is the
  number of whitespace-delimited non-empty tokens of \<open>s\<close>; it is 0 when \<open>s\<close> is empty or
  all whitespace.
\<close>

theorem C2_word_count_is_token_count:
  assumes "is_json req" and "parsed_body req = Some (PDict kvs)"
    and "map_of kvs (ascii ''text'') = Some (PStr s)"
  shows "snd (fst (analyze_text req lg)) = 200 \<and>
     returned (fst (analyze_text req lg)) ''word_count'' = Some (PInt (int (length (tokens s)))) \<and>
     ((\<forall>c \<in> set s. py_isspace c) \<longrightarrow>
        returned (fst (analyze_text req lg)) ''word_count'' = Some (PInt 0))"
  using returned_accepted(1,3) [OF assms, of lg] word_count_all_space [of s]
  by (simp add: word_count_eq_split split_eq_tokens)

theorem C2_word_count_is_token_count_witness:
  "returned (fst (analyze_text
       (client_request ''POST'' ''/analyze'' ''application/json''
          (Some (PDict [(ascii ''text'', PStr (ascii ''  ''))]))) [])) ''word_count'' =
     Some (PInt 0)"
proof -
  let ?kvs = "[(ascii ''text'', PStr (ascii ''  ''))]"
  let ?req = "client_request ''POST'' ''/analyze'' ''application/json'' (Some (PDict ?kvs))"
  have 1: "is_json ?req" by simp
  have 2: "parsed_body ?req = Some (PDict ?kvs)" by simp
  have 3: "map_of ?kvs (ascii ''text'') = Some (PStr (ascii ''  ''))" by simp
  have 4: "\<forall>c \<in> set (ascii ''  ''). py_isspace c"
    by (simp add: ascii_def py_isspace_def)
  from C2_word_count_is_token_count [OF 1 2 3, of "[]"] 4 show ?thesis
    by blast
qed

text \<open>
  C3: for every string \<open>s\<close> that the analyze operation accepts, the answer's
  \<open>character_count\<close> is the length of \<open>s\<close> as Python counts it: the number of code points.
\<close>

theorem C3_character_count_is_length:
  assumes "is_json req" and "parsed_body req = Some (PDict kvs)"
    and "map_of kvs (ascii ''text'') = Some (PStr s)"
  shows "snd (fst (analyze_text req lg)) = 200 \<and>
     returned (fst (analyze_text req lg)) ''character_count'' = Some (PInt (int (length s)))"
  using returned_accepted(1,4) [OF assms, of lg]
  by (simp add: character_count_def)

theorem C3_character_count_is_length_witness:
  "returned (fst (analyze_text
       (client_request ''POST'' ''/analyze'' ''application/json''
          (Some (PDict [(ascii ''text'', PStr [0xE9, 0x20AC, 0x1F600])]))) [])) ''character_count'' =
     Some (PInt 3)"
proof -
  let ?kvs = "[(ascii ''text'', PStr [0xE9, 0x20AC, 0x1F600])]"
  let ?req = "client_request ''POST'' ''/analyze'' ''application/json'' (Some (PDict ?kvs))"
  have 1: "is_json ?req" by simp
  have 2: "parsed_body ?req = Some (PDict ?kvs)" by simp
  have 3: "map_of ?kvs (ascii ''text'') = Some (PStr [0xE9, 0x20AC, 0x1F600])" by simp
  from C3_character_count_is_length [OF 1 2 3, of "[]"] show ?thesis
    by simp
qed

text \<open>
  C10: for every string that the analyze operation accepts, the \<open>word_count\<close> of the answer
  is at most its \<open>character_count\<close>.
\<close>

theorem C10_word_count_le_character_count:
  assumes "is_json req" and "parsed_body req = Some (PDict kvs)"
    and "map_of kvs (ascii ''text'') = Some (PStr s)"
  shows "\<exists>w c. returned (fst (analyze_text req lg)) ''word_count'' = Some (PInt w) \<and>
     returned (fst (analyze_text req lg)) ''character_count'' = Some (PInt c) \<and> w \<le> c"
proof -
  have "word_count s \<le> character_count s"
    by (simp add: word_count_eq_split character_count_def length_split_le)
  then show ?thesis
    using returned_accepted(3,4) [OF assms, of lg] by simp
qed

theorem C10_word_count_le_character_count_witness:
  "\<exists>w c. returned (fst (analyze_text
       (client_request ''POST'' ''/analyze'' ''application/json'' (Some docstring_input)) []))
         ''word_count'' = Some (PInt w) \<and>
     returned (fst (analyze_text
       (client_request ''POST'' ''/analyze'' ''application/json'' (Some docstring_input)) []))
         ''character_count'' = Some (PInt c) \<and> w \<le> c"
proof -
  let ?req = "client_request ''POST'' ''/analyze'' ''application/json'' (Some docstring_input)"
  have 1: "is_json ?req" by simp
  have 2: "parsed_body ?req = Some (PDict [(ascii ''text'', PStr docstring_text)])"
    by (simp add: docstring_input_def)
  have 3: "map_of [(ascii ''text'', PStr docstring_text)] (ascii ''text'') = Some (PStr docstring_text)"
    by simp
  from C10_word_count_le_character_count [OF 1 2 3, of "[]"] show ?thesis .
qed




text \<open>
  C5 as the specification states it does not hold: \<open>application/ld+json\<close> is not
  \<open>application/json\<close>, and a POST to \<open>/analyze\<close> that declares it is analysed and answered
  with 200.
\<close>

theorem C5_json_suffix_mimetype_counterexample:
  "''application/ld+json'' \<noteq> ''application/json'' \<and>
   fst (full_dispatch_request
          (client_request ''POST'' ''/analyze'' ''application/ld+json'' (Some docstring_input)) []) \<noteq>
     Response (Some (error_body ''Content-Type must be application/json'')) 400 \<and>
   status (fst (full_dispatch_request
          (client_request ''POST'' ''/analyze'' ''application/ld+json'' (Some docstring_input)) [])) = 200"
proof -
  let ?req = "client_request ''POST'' ''/analyze'' ''application/ld+json'' (Some docstring_input)"
  have "is_json ?req"
    by (simp add: is_json_def endswith_def)
  then have "fst (analyze_text ?req []) =
     (PDict [(ascii ''original_text'', PStr docstring_text),
             (ascii ''word_count'', PInt 4),
             (ascii ''character_count'', PInt 25)], 200)"
    using analyze_text_docstring [of ?req "[]"] by simp
  then show ?thesis
    by (simp add: dispatch_analyze make_response_def error_body_def)
qed

text \<open>
  C5, as the code has it: every POST to \<open>/analyze\<close> whose mimetype is neither
  \<open>application/json\<close> nor of the form \<open>application/*+json\<close> is answered, whatever the
  body, with 400 and \<open>{"error": "Content-Type must be application/json"}\<close>.
\<close>

theorem C5_not_json_mimetype_rejected:
  assumes "method req = ''POST''" and "path req = ''/analyze''"
    and "mimetype req \<noteq> ''application/json''"
    and "\<not> (startswith (mimetype req) ''application/'' \<and> endswith (mimetype req) ''+json'')"
  shows "full_dispatch_request req lg =
     (Response (Some (error_body ''Content-Type must be application/json'')) 400, lg)"
proof -
  have "\<not> is_json req"
    using assms(3,4) by (simp add: is_json_def Let_def)
  then show ?thesis
    by (simp add: dispatch_analyze [OF assms(1) assms(2)] analyze_text_not_json make_response_def)
qed

theorem C5_not_json_mimetype_rejected_witness:
  "full_dispatch_request
     (client_request ''POST'' ''/analyze'' ''text/plain'' (Some docstring_input)) [] =
   (Response (Some (error_body ''Content-Type must be application/json'')) 400, [])"
  by (rule C5_not_json_mimetype_rejected) simp_all

text \<open>
  C6: for every POST to \<open>/analyze\<close> with JSON content type whose body parses to a JSON
  object, an object without the key \<open>text\<close> is answered with 400 and
  \<open>{"error": "Missing required field: text"}\<close>, and an object whose \<open>text\<close> is present
  but not a string is answered with 400 and \<open>{"error": "Field 'text' must be a string"}\<close>.
  The first check comes first: it decides alone when the key is absent, and the second
  applies only to a key that is present. Both cases return a response.
\<close>

theorem C6_missing_then_not_string:
  assumes "method req = ''POST''" and "path req = ''/analyze''" and "is_json req"
    and "parsed_body req = Some (PDict kvs)"
  shows "(ascii ''text'' \<notin> fst ` set kvs \<longrightarrow>
            full_dispatch_request req lg =
              (Response (Some (error_body ''Missing required field: text'')) 400, lg)) \<and>
         (\<forall>v. map_of kvs (ascii ''text'') = Some v \<and> (\<forall>s. v \<noteq> PStr s) \<longrightarrow>
            full_dispatch_request req lg =
              (Response (Some (error_body ''Field 'text' must be a string'')) 400, lg))"
  using analyze_text_missing [OF assms(3) assms(4), of lg]
    analyze_text_not_str [OF assms(3) assms(4), of _ lg]
  by (simp add: dispatch_analyze [OF assms(1) assms(2)] make_response_def)

theorem C6_missing_then_not_string_witness:
  "full_dispatch_request
     (client_request ''POST'' ''/analyze'' ''application/json'' (Some (PDict []))) [] =
     (Response (Some (error_body ''Missing required field: text'')) 400, []) \<and>
   full_dispatch_request
     (client_request ''POST'' ''/analyze'' ''application/json''
        (Some (PDict [(ascii ''text'', PInt 123)]))) [] =
     (Response (Some (error_body ''Field 'text' must be a string'')) 400, [])"
proof -
  let ?r1 = "client_request ''POST'' ''/analyze'' ''application/json'' (Some (PDict []))"
  let ?k2 = "[(ascii ''text'', PInt 123)]"
  let ?r2 = "client_request ''POST'' ''/analyze'' ''application/json'' (Some (PDict ?k2))"
  have a: "parsed_body ?r1 = Some (PDict [])" by simp
  have b: "parsed_body ?r2 = Some (PDict ?k2)" by simp
  have c: "map_of ?k2 (ascii ''text'') = Some (PInt 123) \<and> (\<forall>s. PInt 123 \<noteq> PStr s)" by simp
  from C6_missing_then_not_string [of ?r1 "[]" "[]", OF _ _ _ a]
  have 1: "full_dispatch_request ?r1 [] =
      (Response (Some (error_body ''Missing required field: text'')) 400, [])"
    by simp
  from C6_missing_then_not_string [of ?r2 ?k2 "[]", OF _ _ _ b] c
  have 2: "full_dispatch_request ?r2 [] =
      (Response (Some (error_body ''Field 'text' must be a string'')) 400, [])"
    by simp
  from 1 2 show ?thesis by (rule conjI)
qed




text \<open>
  C8: every GET to \<open>/health\<close>, whatever its mimetype, headers and body, is answered with 200
  and \<open>{"status": "healthy"}\<close>, and leaves the log as it was.
\<close>

theorem C8_health_always_healthy:
  assumes "method req = ''GET''" and "path req = ''/health''"
  shows "full_dispatch_request req lg =
     (Response (Some (PDict [(ascii ''status'', PStr (ascii ''healthy''))])) 200, lg)"
  by (simp add: dispatch_health [OF assms] make_response_def health_check_def)

theorem C8_health_always_healthy_witness:
  "full_dispatch_request
     \<lparr>method = ''GET'', path = ''/health'', mimetype = ''text/plain'',
       headers = [(''X-Probe'', ''1'')], parsed_body = Some (PList [PNone])\<rparr>
     [Error_processing TypeError] =
   (Response (Some (PDict [(ascii ''status'', PStr (ascii ''healthy''))])) 200,
    [Error_processing TypeError])"
  by (rule C8_health_always_healthy) simp_all

text \<open>
  C9: the response to a request is a function of the request alone. Whatever requests the
  process served before, and whatever the log holds, the same request gets the same response.
\<close>

theorem C9_response_independent_of_history:
  "fst (full_dispatch_request req (snd (serve earlier lg))) = fst (full_dispatch_request req lg')"
  by (rule dispatch_response_log_independent)

theorem C9_response_independent_of_history_witness:
  "fst (full_dispatch_request
          (client_request ''POST'' ''/analyze'' ''application/json'' (Some docstring_input))
          (snd (serve [client_request ''POST'' ''/analyze'' ''application/json'' None,
                       client_request ''POST'' ''/analyze'' ''application/json'' (Some docstring_input)]
                  []))) =
   fst (full_dispatch_request
          (client_request ''POST'' ''/analyze'' ''application/json'' (Some docstring_input)) [])"
  by (rule C9_response_independent_of_history)

end
